theory Spec2Isabelle
  imports Complex_Main
begin

section \<open>The offline cache manager (static/sw.js)\<close>

subsection \<open>Requests, responses and the cache storage of the hosting runtime\<close>

text \<open>
  The service worker talks to three things of the hosting runtime: the network
  (\<^verbatim>\<open>fetch\<close>), the cache storage (\<^verbatim>\<open>caches\<close>) and its own life cycle
  (\<^verbatim>\<open>event.waitUntil\<close>, \<^verbatim>\<open>self.skipWaiting\<close>). The network is a parameter of
  every handler: a function from a URL to the response the network gives at the
  moment of the call, \<open>None\<close> when the fetch rejects. A response that carries an
  HTTP error status is still a response.
\<close>

datatype js_error = TypeError

record response =
  status :: nat
  body :: string

datatype request_mode = Navigate | SameOrigin | NoCors | Cors

record request =
  url :: string
  mode :: request_mode

type_synonym network = "string \<Rightarrow> response option"

text \<open>A cache maps a request URL to the stored response; the cache storage is the
  list of the named caches, in the order of their creation.\<close>

type_synonym cache = "string \<rightharpoonup> response"

type_synonym cache_storage = "(string \<times> cache) list"

definition fetch :: "network \<Rightarrow> request \<Rightarrow> js_error + response" where
  "fetch net req = (case net (url req) of None \<Rightarrow> Inl TypeError | Some r \<Rightarrow> Inr r)"

text \<open>\<^verbatim>\<open>caches.open(name)\<close>: the cache of that name, created empty when absent.\<close>

definition caches_open :: "string \<Rightarrow> cache_storage \<Rightarrow> cache_storage" where
  "caches_open name st =
     (case map_of st name of None \<Rightarrow> st @ [(name, Map.empty)] | Some c \<Rightarrow> st)"

definition cache_of :: "string \<Rightarrow> cache_storage \<Rightarrow> cache" where
  "cache_of name st = (case map_of st name of None \<Rightarrow> Map.empty | Some c \<Rightarrow> c)"

definition caches_update :: "string \<Rightarrow> cache \<Rightarrow> cache_storage \<Rightarrow> cache_storage" where
  "caches_update name c st = map (\<lambda>(n, c0). if n = name then (n, c) else (n, c0)) st"

text \<open>\<^verbatim>\<open>caches.match(request)\<close>: the first stored response for the URL, looking
  through the caches in order; \<open>None\<close> is JavaScript's \<^verbatim>\<open>undefined\<close>.\<close>

fun caches_match :: "cache_storage \<Rightarrow> string \<Rightarrow> response option" where
  "caches_match [] u = None"
| "caches_match ((n, c) # st) u =
     (case c u of Some r \<Rightarrow> Some r | None \<Rightarrow> caches_match st u)"

definition ok_status :: "response \<Rightarrow> bool" where
  "ok_status r = (200 \<le> status r \<and> status r \<le> 299)"

text \<open>
  Modelled from the spec: \<^verbatim>\<open>cache.addAll\<close> is a primitive of the hosting runtime, not
  code of the repository. The spec has it "populate [the store] by fetching and storing
  every URL" of the list, and "if any fetch in this batch fails, the install step fails
  as a whole (atomic-all-or-nothing population)". Here every URL is fetched first
  (\<open>fetch_all\<close>); a fetch fails when it rejects or, as the runtime's cache interface has
  it, resolves with a status outside 200..299. Only when all have succeeded are the
  responses stored (\<open>put_all\<close>).
\<close>

fun fetch_all :: "network \<Rightarrow> string list \<Rightarrow> (string \<times> response) list option" where
  "fetch_all net [] = Some []"
| "fetch_all net (u # us) =
     (case net u of
        None \<Rightarrow> None
      | Some r \<Rightarrow>
          if ok_status r
          then (case fetch_all net us of None \<Rightarrow> None | Some rs \<Rightarrow> Some ((u, r) # rs))
          else None)"

fun put_all :: "(string \<times> response) list \<Rightarrow> cache \<Rightarrow> cache" where
  "put_all [] c = c"
| "put_all ((u, r) # rs) c = put_all rs (c(u \<mapsto> r))"

definition cache_addAll :: "network \<Rightarrow> string list \<Rightarrow> cache \<Rightarrow> js_error + cache" where
  "cache_addAll net urls c =
     (case fetch_all net urls of None \<Rightarrow> Inl TypeError | Some rs \<Rightarrow> Inr (put_all rs c))"

text \<open>Whether the fetch of one URL succeeds for \<^verbatim>\<open>addAll\<close>.\<close>

definition precache_fetch_ok :: "network \<Rightarrow> string \<Rightarrow> bool" where
  "precache_fetch_ok net u = (case net u of None \<Rightarrow> False | Some r \<Rightarrow> ok_status r)"

subsection \<open>Constants of the worker\<close>

definition CACHE_NAME :: string where
  "CACHE_NAME = ''undo-cache-v1''"

definition OFFLINE_URL :: string where
  "OFFLINE_URL = ''/static/offline.html''"

definition PRECACHE :: "string list" where
  "PRECACHE =
     [''/'',
      ''/static/style.css'',
      OFFLINE_URL,
      ''/static/icons/icon-192.png'',
      ''/static/icons/icon-512.png'',
      ''/static/manifest.webmanifest'']"

subsection \<open>The install handler\<close>

text \<open>
  The state of the worker: the cache storage, the skip-waiting flag that
  \<^verbatim>\<open>self.skipWaiting()\<close> sets, and the life-cycle events of the install in the order in
  which they happen.
\<close>

datatype sw_event = SkipWaitingCalled | PopulationSucceeded | PopulationFailed

record sw_state =
  storage :: cache_storage
  skip_waiting :: bool
  events :: "sw_event list"

definition skipWaiting :: "sw_state \<Rightarrow> sw_state" where
  "skipWaiting s = s\<lparr>skip_waiting := True, events := events s @ [SkipWaitingCalled]\<rparr>"

text \<open>The promise handed to \<^verbatim>\<open>event.waitUntil\<close>:
  \<^verbatim>\<open>caches.open(CACHE_NAME).then((cache) => cache.addAll(PRECACHE))\<close>. Its result is
  what the runtime sees: \<open>Inl\<close> is a rejection, which nothing in the handler catches.\<close>

definition populate :: "network \<Rightarrow> sw_state \<Rightarrow> (js_error + unit) \<times> sw_state" where
  "populate net s =
     (let st1 = caches_open CACHE_NAME (storage s) in
      case cache_addAll net PRECACHE (cache_of CACHE_NAME st1) of
        Inl e \<Rightarrow> (Inl e, s\<lparr>storage := st1, events := events s @ [PopulationFailed]\<rparr>)
      | Inr c \<Rightarrow>
          (Inr (), s\<lparr>storage := caches_update CACHE_NAME c st1,
                     events := events s @ [PopulationSucceeded]\<rparr>))"

text \<open>
  The handler's body runs to its end before any promise callback runs: the call of
  \<^verbatim>\<open>caches.open\<close> only starts the chain, \<^verbatim>\<open>self.skipWaiting()\<close> on the next line is
  called at once, and the chain (opening the cache, \<^verbatim>\<open>addAll\<close>) settles afterwards.
\<close>

definition install_handler :: "network \<Rightarrow> sw_state \<Rightarrow> (js_error + unit) \<times> sw_state" where
  "install_handler net s = populate net (skipWaiting s)"

definition initial_state :: sw_state where
  "initial_state = \<lparr>storage = [], skip_waiting = False, events = []\<rparr>"

subsection \<open>The fetch handler\<close>

text \<open>The handler answers with the settled value of the promise given to
  \<^verbatim>\<open>event.respondWith\<close> and leaves the cache storage as the second component.\<close>

definition fetch_handler ::
  "network \<Rightarrow> cache_storage \<Rightarrow> request \<Rightarrow> (js_error + response option) \<times> cache_storage" where
  "fetch_handler net st req =
     (if mode req = Navigate
      then ((case fetch net req of
               Inr r \<Rightarrow> Inr (Some r)
             | Inl e \<Rightarrow> Inr (caches_match st OFFLINE_URL)), st)
      else ((case caches_match st (url req) of
               Some hit \<Rightarrow> Inr (Some hit)
             | None \<Rightarrow> (case fetch net req of Inr r \<Rightarrow> Inr (Some r) | Inl e \<Rightarrow> Inl e)), st))"

text \<open>Networks used to run the handlers on concrete inputs: one where every fetch
  rejects, one where every fetch resolves with a given status, and one where the fetch
  of the stylesheet rejects and every other fetch resolves with status 200.\<close>

definition offline_net :: network where
  "offline_net u = None"

definition status_net :: "nat \<Rightarrow> network" where
  "status_net code u = Some \<lparr>status = code, body = u\<rparr>"

definition flaky_net :: network where
  "flaky_net u =
     (if u = ''/static/style.css'' then None else Some \<lparr>status = 200, body = u\<rparr>)"

text \<open>A cache storage that holds the offline page only.\<close>

definition example_storage :: cache_storage where
  "example_storage =
     [(CACHE_NAME, [OFFLINE_URL \<mapsto> \<lparr>status = 200, body = ''offline''\<rparr>])]"

text \<open>The words of the specification on the order of the install: readiness to skip
  waiting is signaled only after population has succeeded. On a trace of events, every
  \<open>SkipWaitingCalled\<close> has a \<open>PopulationSucceeded\<close> before it.\<close>

fun skip_only_after_success :: "bool \<Rightarrow> sw_event list \<Rightarrow> bool" where
  "skip_only_after_success populated [] = True"
| "skip_only_after_success populated (SkipWaitingCalled # es) =
     (populated \<and> skip_only_after_success populated es)"
| "skip_only_after_success populated (PopulationSucceeded # es) =
     skip_only_after_success True es"
| "skip_only_after_success populated (PopulationFailed # es) =
     skip_only_after_success populated es"

section \<open>The gesture navigator (static/swipe.js)\<close>

subsection \<open>Touch targets\<close>

text \<open>
  A touch target is seen through \<^verbatim>\<open>el.closest(selector)\<close> only, which walks from the
  element up through its ancestors. An element is therefore the list of the kinds of
  itself and its ancestors, itself first; \<open>None\<close> is a target that is null or has no
  \<^verbatim>\<open>closest\<close> method. \<open>ContentEditable v\<close> is an element that carries the attribute
  \<^verbatim>\<open>contenteditable="v"\<close>; the selector asks for the value \<^verbatim>\<open>true\<close>.
\<close>

datatype element_kind =
  Input | Textarea | Select | Button | Anchor | ContentEditable string | Other

type_synonym element = "element_kind list"

fun matches_selector :: "element_kind \<Rightarrow> bool" where
  "matches_selector (ContentEditable v) = (v = ''true'')"
| "matches_selector Other = False"
| "matches_selector k = True"

definition isFormEl :: "element option \<Rightarrow> bool" where
  "isFormEl el = (case el of None \<Rightarrow> False | Some chain \<Rightarrow> list_ex matches_selector chain)"

subsection \<open>Numbers\<close>
















subsection \<open>The angle test\<close>




subsection \<open>The tab list and the index lookup\<close>

text \<open>\<^verbatim>\<open>goto\<close>: the result is the URL assigned to the location, \<open>None\<close> when nothing is
  assigned. An argument \<open>None\<close> is \<^verbatim>\<open>undefined\<close>; the empty string is falsy as well.\<close>

definition goto :: "string option \<Rightarrow> string option" where
  "goto u = (case u of None \<Rightarrow> None | Some v \<Rightarrow> if v = [] then None else Some v)"

text \<open>The tab list: the \<^verbatim>\<open>href\<close> of each link of the navigation bar, or the three
  fallback paths under the origin when the bar has no link.\<close>

definition init_tabs :: "string \<Rightarrow> string list \<Rightarrow> string list" where
  "init_tabs origin navLinks =
     (let tabs = navLinks in
      if tabs = [] then map (\<lambda>p. origin @ p) [''/'', ''/reflections'', ''/profile'']
      else tabs)"

text \<open>
  The URL parser of the runtime is a parameter: \<open>parse href\<close> is
  \<^verbatim>\<open>new URL(href, window.location.origin).pathname\<close>, or \<open>Inl TypeError\<close> when the
  constructor throws. \<^verbatim>\<open>normalizePath\<close> catches the exception and returns null.
\<close>

type_synonym url_parser = "string \<Rightarrow> js_error + string"

definition normalizePath :: "url_parser \<Rightarrow> string \<Rightarrow> string option" where
  "normalizePath parse href = (case parse href of Inl e \<Rightarrow> None | Inr p \<Rightarrow> Some p)"

text \<open>\<^verbatim>\<open>Array.prototype.findIndex\<close>: the first index whose element satisfies the
  predicate, or -1.\<close>

fun findIndex :: "('a \<Rightarrow> bool) \<Rightarrow> 'a list \<Rightarrow> int" where
  "findIndex p [] = - 1"
| "findIndex p (x # xs) =
     (if p x then 0 else (let r = findIndex p xs in if r < 0 then - 1 else r + 1))"

definition tabIndexOf :: "url_parser \<Rightarrow> string list \<Rightarrow> string \<Rightarrow> int" where
  "tabIndexOf parse tabs href =
     (case normalizePath parse href of
        None \<Rightarrow> - 1
      | Some path \<Rightarrow>
          if path = [] then - 1
          else findIndex (\<lambda>t. normalizePath parse t = Some path) tabs)"

text \<open>JavaScript's \<^verbatim>\<open>%\<close> on integers: the remainder has the sign of the dividend, and
  a zero divisor gives NaN (\<open>None\<close>). \<^verbatim>\<open>tabs[k]\<close> is \<^verbatim>\<open>undefined\<close> for NaN and
  outside the list.\<close>

definition js_rem :: "int \<Rightarrow> int \<Rightarrow> int option" where
  "js_rem a b = (if b = 0 then None else Some (sgn a * (\<bar>a\<bar> mod \<bar>b\<bar>)))"

definition tab_at :: "string list \<Rightarrow> int option \<Rightarrow> string option" where
  "tab_at tabs k =
     (case k of
        None \<Rightarrow> None
      | Some j \<Rightarrow> if 0 \<le> j \<and> j < int (length tabs) then Some (tabs ! nat j) else None)"

definition nextTab :: "url_parser \<Rightarrow> string list \<Rightarrow> string \<Rightarrow> string option" where
  "nextTab parse tabs href =
     (let i = tabIndexOf parse tabs href in
      if i \<ge> 0 then goto (tab_at tabs (js_rem (i + 1) (int (length tabs)))) else None)"

definition prevTab :: "url_parser \<Rightarrow> string list \<Rightarrow> string \<Rightarrow> string option" where
  "prevTab parse tabs href =
     (let i = tabIndexOf parse tabs href in
      if i \<ge> 0 then goto (tab_at tabs (js_rem (i - 1 + int (length tabs)) (int (length tabs))))
      else None)"

subsection \<open>The touch handlers\<close>










subsection \<open>The words of the specification on a qualifying swipe\<close>



text \<open>An element is editable when its \<^verbatim>\<open>contenteditable\<close> attribute is empty,
  \<^verbatim>\<open>true\<close> or \<^verbatim>\<open>plaintext-only\<close>. The interactive elements of the specification are
  the inputs, text areas, selects, buttons, anchors and editable elements.\<close>

fun editable :: "element_kind \<Rightarrow> bool" where
  "editable (ContentEditable v) = (v = [] \<or> v = ''true'' \<or> v = ''plaintext-only'')"
| "editable k = False"

fun interactive :: "element_kind \<Rightarrow> bool" where
  "interactive (ContentEditable v) = editable (ContentEditable v)"
| "interactive Other = False"
| "interactive k = True"

definition inside_interactive :: "element option \<Rightarrow> bool" where
  "inside_interactive el =
     (case el of None \<Rightarrow> False | Some chain \<Rightarrow> list_ex interactive chain)"

text \<open>
  A page of three tabs under the origin \<^verbatim>\<open>https://undo.example\<close>, whose navigation bar
  has no link, so that the tab list is the fallback. \<open>example_parse\<close> is the URL parser
  of that page as far as the examples need it: the pathnames of the three tabs and of
  the empty string, which resolves to the origin itself; every other string, among them
  \<^verbatim>\<open>http://[\<close>, which is no URL, is taken as unparsable.
\<close>

definition example_parse :: url_parser where
  "example_parse href =
     (if href = ''https://undo.example/'' then Inr ''/''
      else if href = ''https://undo.example/reflections'' then Inr ''/reflections''
      else if href = ''https://undo.example/profile'' then Inr ''/profile''
      else if href = [] then Inr ''/''
      else Inl TypeError)"

definition example_tabs :: "string list" where
  "example_tabs = init_tabs ''https://undo.example'' []"


definition tabs_with_bad_url :: "string list" where
  "tabs_with_bad_url =
     init_tabs ''https://undo.example'' [''http://['', ''https://undo.example/profile'']"





section \<open>Properties of the offline cache manager\<close>

subsection \<open>Fetching and storing the manifest\<close>

lemma fetch_all_ok:
  "list_all (precache_fetch_ok net) us \<Longrightarrow>
   fetch_all net us = Some (map (\<lambda>u. (u, the (net u))) us)"
  by (induction us) (auto simp: precache_fetch_ok_def split: option.splits)

lemma fetch_all_failed:
  "list_ex (\<lambda>u. \<not> precache_fetch_ok net u) us \<Longrightarrow> fetch_all net us = None"
  by (induction us) (auto simp: precache_fetch_ok_def split: option.splits)

lemma fetch_all_Some_ok:
  "fetch_all net us = Some rs \<Longrightarrow> list_all (precache_fetch_ok net) us"
  by (induction us arbitrary: rs) (auto simp: precache_fetch_ok_def split: option.splits if_splits)

lemma dom_put_all: "dom (put_all rs c) = dom c \<union> fst ` set rs"
proof (induction rs arbitrary: c)
  case Nil
  then show ?case by simp
next
  case (Cons p rs)
  obtain u r where p: "p = (u, r)" by (cases p)
  show ?case unfolding p by (simp add: Cons.IH) auto
qed

lemma put_all_fetched:
  "distinct us \<Longrightarrow> u \<in> set us \<Longrightarrow> put_all (map (\<lambda>u. (u, f u)) us) c u = Some (f u)"
proof (induction us arbitrary: c)
  case Nil
  then show ?case by simp
next
  case (Cons a us)
  have other: "\<And>c. u \<notin> set us \<Longrightarrow> put_all (map (\<lambda>u. (u, f u)) us) c u = c u"
    by (induction us) auto
  show ?case
  proof (cases "u = a")
    case True
    with Cons.prems have "u \<notin> set us" by simp
    with True other show ?thesis by simp
  next
    case False
    with Cons show ?thesis by simp
  qed
qed

lemma caches_match_found:
  "(n, c) \<in> set st \<Longrightarrow> c u \<noteq> None \<Longrightarrow> caches_match st u \<noteq> None"
  by (induction st) (auto split: option.splits)

lemma map_of_caches_open:
  "map_of (caches_open name st) name \<noteq> None"
  by (auto simp: caches_open_def map_add_def split: option.splits)

lemma cache_of_caches_open:
  "cache_of n (caches_open name st) = cache_of n st"
  by (auto simp: caches_open_def cache_of_def map_add_def split: option.splits)

lemma caches_match_append_empty:
  "caches_match (st @ [(name, Map.empty)]) u = caches_match st u"
  by (induction st) (auto split: option.splits)

lemma caches_match_caches_open:
  "caches_match (caches_open name st) u = caches_match st u"
  by (simp add: caches_open_def caches_match_append_empty split: option.splits)

lemma map_of_caches_update:
  "map_of (caches_update name c st) n =
     (if n = name then (case map_of st name of None \<Rightarrow> None | Some c0 \<Rightarrow> Some c)
      else map_of st n)"
  by (induction st) (auto simp: caches_update_def)

lemma cache_of_updated:
  "cache_of name (caches_update name c (caches_open name st)) = c"
  using map_of_caches_open [of name st]
  by (auto simp: cache_of_def map_of_caches_update split: option.splits)

lemma updated_mem:
  "map_of st name \<noteq> None \<Longrightarrow> (name, c) \<in> set (caches_update name c st)"
  by (induction st) (auto simp: caches_update_def split: if_splits)

lemma OFFLINE_in_PRECACHE: "OFFLINE_URL \<in> set PRECACHE"
  by (simp add: PRECACHE_def)

lemma distinct_PRECACHE: "distinct PRECACHE"
  by (simp add: PRECACHE_def OFFLINE_URL_def)

lemma length_PRECACHE: "length PRECACHE = 6"
  by (simp add: PRECACHE_def)

lemma install_ok:
  assumes "list_all (precache_fetch_ok net) PRECACHE"
  shows "install_handler net s =
     (Inr (), s\<lparr>skip_waiting := True,
               storage := caches_update CACHE_NAME
                  (put_all (map (\<lambda>u. (u, the (net u))) PRECACHE)
                     (cache_of CACHE_NAME (storage s)))
                  (caches_open CACHE_NAME (storage s)),
               events := events s @ [SkipWaitingCalled, PopulationSucceeded]\<rparr>)"
  using fetch_all_ok [OF assms]
  by (simp add: install_handler_def populate_def skipWaiting_def cache_addAll_def
      cache_of_caches_open Let_def)

lemma install_failed:
  assumes "\<not> list_all (precache_fetch_ok net) PRECACHE"
  shows "install_handler net s =
     (Inl TypeError, s\<lparr>skip_waiting := True,
               storage := caches_open CACHE_NAME (storage s),
               events := events s @ [SkipWaitingCalled, PopulationFailed]\<rparr>)"
proof -
  have "fetch_all net PRECACHE = None"
    using assms fetch_all_Some_ok [of net PRECACHE] by (cases "fetch_all net PRECACHE") auto
  then show ?thesis
    by (simp add: install_handler_def populate_def skipWaiting_def cache_addAll_def Let_def)
qed

subsection \<open>Fetch handling and install\<close>

text \<open>
  Claim C1. A navigation request is answered network first: the handler fetches from the
  network; when the fetch rejects, the answer is what the cache storage holds for
  \<^verbatim>\<open>/static/offline.html\<close>; when the fetch resolves, its response is the answer as it
  is. In both cases the cache storage is left as it was, so nothing is written back.
\<close>

theorem navigate_network_first:
  assumes "mode req = Navigate"
  shows "snd (fetch_handler net st req) = st \<and>
         (net (url req) = None \<longrightarrow>
            fst (fetch_handler net st req) = Inr (caches_match st ''/static/offline.html'')) \<and>
         (\<forall>r. net (url req) = Some r \<longrightarrow> fst (fetch_handler net st req) = Inr (Some r))"
  using assms by (simp add: fetch_handler_def fetch_def OFFLINE_URL_def)

text \<open>The rule of C1 on a navigation to the root page, offline and online.\<close>

theorem navigate_network_first_witness:
  "mode \<lparr>url = ''/'', mode = Navigate\<rparr> = Navigate \<and>
   offline_net ''/'' = None \<and>
   fetch_handler offline_net example_storage \<lparr>url = ''/'', mode = Navigate\<rparr> =
     (Inr (Some \<lparr>status = 200, body = ''offline''\<rparr>), example_storage) \<and>
   fetch_handler (status_net 200) example_storage \<lparr>url = ''/'', mode = Navigate\<rparr> =
     (Inr (Some \<lparr>status = 200, body = ''/''\<rparr>), example_storage)"
  using navigate_network_first [of "\<lparr>url = ''/'', mode = Navigate\<rparr>" offline_net example_storage]
    navigate_network_first [of "\<lparr>url = ''/'', mode = Navigate\<rparr>" "status_net 200" example_storage]
  by (simp add: offline_net_def status_net_def example_storage_def OFFLINE_URL_def prod_eq_iff)

text \<open>
  Claim C2. A request that is not a navigation is answered cache first: with the cached
  entry when the storage has one for the request, and otherwise with the result of the
  live fetch (its response, or its rejection). The cache storage is unchanged in both
  cases.
\<close>

theorem asset_cache_first:
  assumes "mode req \<noteq> Navigate"
  shows "snd (fetch_handler net st req) = st \<and>
         (\<forall>hit. caches_match st (url req) = Some hit \<longrightarrow>
            fst (fetch_handler net st req) = Inr (Some hit)) \<and>
         (caches_match st (url req) = None \<longrightarrow>
            fst (fetch_handler net st req) =
              (case fetch net req of Inr r \<Rightarrow> Inr (Some r) | Inl e \<Rightarrow> Inl e))"
  using assms by (simp add: fetch_handler_def)

text \<open>The rule of C2 on an asset that is not cached, fetched with success, and on a
  cached asset while the network is down.\<close>

theorem asset_cache_first_witness:
  "mode \<lparr>url = ''/static/app.js'', mode = NoCors\<rparr> \<noteq> Navigate \<and>
   caches_match example_storage ''/static/app.js'' = None \<and>
   fetch_handler (status_net 200) example_storage \<lparr>url = ''/static/app.js'', mode = NoCors\<rparr> =
     (Inr (Some \<lparr>status = 200, body = ''/static/app.js''\<rparr>), example_storage) \<and>
   fetch_handler offline_net example_storage \<lparr>url = ''/static/offline.html'', mode = NoCors\<rparr> =
     (Inr (Some \<lparr>status = 200, body = ''offline''\<rparr>), example_storage)"
  using asset_cache_first [of "\<lparr>url = ''/static/app.js'', mode = NoCors\<rparr>" "status_net 200" example_storage]
    asset_cache_first [of "\<lparr>url = ''/static/offline.html'', mode = NoCors\<rparr>" offline_net example_storage]
  by (simp add: offline_net_def status_net_def example_storage_def OFFLINE_URL_def prod_eq_iff
      fetch_def)

text \<open>
  Claim C10. For a navigation request, a fetch that resolves gives the answer whatever
  the status of its response, 404 and 500 included, and whatever the cache storage
  holds; an answer other than the network's response is given only when the fetch
  rejects.
\<close>

theorem navigate_error_status_returned:
  assumes "mode req = Navigate"
  shows "(\<forall>r. net (url req) = Some r \<longrightarrow> fetch_handler net st req = (Inr (Some r), st)) \<and>
         (fst (fetch_handler net st req) \<noteq> Inr (net (url req)) \<longrightarrow> net (url req) = None)"
  using assms by (auto simp: fetch_handler_def fetch_def split: option.splits)

text \<open>The rule of C10 on responses of status 404 and 500, with an offline page in the
  cache.\<close>

theorem navigate_error_status_returned_witness:
  "mode \<lparr>url = ''/missing'', mode = Navigate\<rparr> = Navigate \<and>
   fetch_handler (status_net 404) example_storage \<lparr>url = ''/missing'', mode = Navigate\<rparr> =
     (Inr (Some \<lparr>status = 404, body = ''/missing''\<rparr>), example_storage) \<and>
   fetch_handler (status_net 500) example_storage \<lparr>url = ''/missing'', mode = Navigate\<rparr> =
     (Inr (Some \<lparr>status = 500, body = ''/missing''\<rparr>), example_storage) \<and>
   caches_match example_storage OFFLINE_URL = Some \<lparr>status = 200, body = ''offline''\<rparr>"
  using navigate_error_status_returned [of "\<lparr>url = ''/missing'', mode = Navigate\<rparr>" "status_net 404" example_storage]
    navigate_error_status_returned [of "\<lparr>url = ''/missing'', mode = Navigate\<rparr>" "status_net 500" example_storage]
  by (simp add: status_net_def example_storage_def)

text \<open>
  Claim C4, as amended. The precache manifest has six paths, all different. After an
  install in which every precache fetch succeeds, the install succeeds, the cache named
  \<open>CACHE_NAME\<close> holds its former entries and the six of the manifest, each with the
  response the network gave, and these six are all its entries when it was empty or
  absent before.
\<close>

theorem install_populates_manifest:
  assumes "list_all (precache_fetch_ok net) PRECACHE"
  shows "length PRECACHE = 6 \<and> distinct PRECACHE \<and>
         fst (install_handler net s) = Inr () \<and>
         dom (cache_of CACHE_NAME (storage (snd (install_handler net s)))) =
           dom (cache_of CACHE_NAME (storage s)) \<union> set PRECACHE \<and>
         (\<forall>u \<in> set PRECACHE.
            cache_of CACHE_NAME (storage (snd (install_handler net s))) u = net u) \<and>
         (dom (cache_of CACHE_NAME (storage s)) = {} \<longrightarrow>
            card (dom (cache_of CACHE_NAME (storage (snd (install_handler net s))))) = 6)"
proof -
  let ?c = "cache_of CACHE_NAME (storage (snd (install_handler net s)))"
  have c: "?c = put_all (map (\<lambda>u. (u, the (net u))) PRECACHE) (cache_of CACHE_NAME (storage s))"
    by (simp add: install_ok [OF assms] cache_of_updated)
  have d: "dom ?c = dom (cache_of CACHE_NAME (storage s)) \<union> set PRECACHE"
    by (simp add: c dom_put_all image_image)
  have v: "?c u = net u" if "u \<in> set PRECACHE" for u
  proof -
    from assms that have "precache_fetch_ok net u" by (simp add: list_all_iff)
    then have "net u = Some (the (net u))"
      by (cases "net u") (simp_all add: precache_fetch_ok_def)
    then show ?thesis
      using put_all_fetched [OF distinct_PRECACHE that] by (simp add: c)
  qed
  have k: "card (set PRECACHE) = 6"
    using distinct_card [OF distinct_PRECACHE] by (simp add: length_PRECACHE)
  have r: "fst (install_handler net s) = Inr ()"
    by (simp add: install_ok [OF assms])
  have e: "card (dom ?c) = 6" if "dom (cache_of CACHE_NAME (storage s)) = {}"
  proof -
    from d that have "dom ?c = set PRECACHE" by (simp only: Un_empty_left)
    with k show ?thesis by (simp only:)
  qed
  show ?thesis
  proof (intro conjI ballI impI)
    show "length PRECACHE = 6" by (rule length_PRECACHE)
    show "distinct PRECACHE" by (rule distinct_PRECACHE)
    show "fst (install_handler net s) = Inr ()" by (rule r)
    show "dom ?c = dom (cache_of CACHE_NAME (storage s)) \<union> set PRECACHE" by (rule d)
    show "?c u = net u" if "u \<in> set PRECACHE" for u using that by (rule v)
    show "card (dom ?c) = 6" if "dom (cache_of CACHE_NAME (storage s)) = {}"
      using that by (rule e)
  qed
qed

text \<open>The rule of C4 on an install from the initial state with every fetch
  successful.\<close>

theorem install_populates_manifest_witness:
  "list_all (precache_fetch_ok (status_net 200)) PRECACHE \<and>
   fst (install_handler (status_net 200) initial_state) = Inr () \<and>
   dom (cache_of CACHE_NAME (storage (snd (install_handler (status_net 200) initial_state)))) =
     set PRECACHE \<and>
   card (dom (cache_of CACHE_NAME (storage (snd (install_handler (status_net 200) initial_state))))) = 6"
proof -
  have h: "list_all (precache_fetch_ok (status_net 200)) PRECACHE"
    by (simp add: PRECACHE_def precache_fetch_ok_def status_net_def ok_status_def)
  have e: "dom (cache_of CACHE_NAME (storage initial_state)) = {}"
    by (simp add: initial_state_def cache_of_def)
  note t = install_populates_manifest [OF h, of initial_state]
  from t have a: "fst (install_handler (status_net 200) initial_state) = Inr ()"
    by (rule conjunct1 [OF conjunct2 [OF conjunct2]])
  from t have "dom (cache_of CACHE_NAME (storage (snd (install_handler (status_net 200) initial_state)))) =
      dom (cache_of CACHE_NAME (storage initial_state)) \<union> set PRECACHE"
    by (rule conjunct1 [OF conjunct2 [OF conjunct2 [OF conjunct2]]])
  then have b: "dom (cache_of CACHE_NAME (storage (snd (install_handler (status_net 200) initial_state)))) =
      set PRECACHE"
    by (simp only: e Un_empty_left)
  from t have "dom (cache_of CACHE_NAME (storage initial_state)) = {} \<longrightarrow>
      card (dom (cache_of CACHE_NAME
        (storage (snd (install_handler (status_net 200) initial_state))))) = 6"
    by (rule conjunct2 [OF conjunct2 [OF conjunct2 [OF conjunct2 [OF conjunct2]]]])
  with e have c: "card (dom (cache_of CACHE_NAME
      (storage (snd (install_handler (status_net 200) initial_state))))) = 6"
    by (rule rev_mp)
  from h a b c show ?thesis
    by (intro conjI)
qed

text \<open>The manifest does not have seven paths, and a successful install from the initial
  state does not leave seven entries.\<close>

theorem manifest_seven_counterexample:
  "length PRECACHE \<noteq> 7 \<and>
   fst (install_handler (status_net 200) initial_state) = Inr () \<and>
   card (dom (cache_of CACHE_NAME (storage (snd (install_handler (status_net 200) initial_state))))) \<noteq> 7"
proof -
  have h: "list_all (precache_fetch_ok (status_net 200)) PRECACHE"
    by (simp add: PRECACHE_def precache_fetch_ok_def status_net_def ok_status_def)
  have e: "dom (cache_of CACHE_NAME (storage initial_state)) = {}"
    by (simp add: initial_state_def cache_of_def)
  have r: "fst (install_handler (status_net 200) initial_state) = Inr ()"
    by (simp add: install_ok [OF h])
  have "cache_of CACHE_NAME (storage (snd (install_handler (status_net 200) initial_state))) =
        put_all (map (\<lambda>u. (u, the (status_net 200 u))) PRECACHE)
          (cache_of CACHE_NAME (storage initial_state))"
    by (simp add: install_ok [OF h] cache_of_updated)
  then have "dom (cache_of CACHE_NAME
                (storage (snd (install_handler (status_net 200) initial_state)))) =
             set PRECACHE"
    by (simp only: dom_put_all e Un_empty_left set_map image_image fst_conv image_ident)
  moreover have "card (set PRECACHE) = 6"
    using distinct_card [OF distinct_PRECACHE] by (simp add: length_PRECACHE)
  ultimately have "card (dom (cache_of CACHE_NAME
                (storage (snd (install_handler (status_net 200) initial_state))))) = 6"
    by (simp only:)
  with r show ?thesis
    by (simp only: length_PRECACHE) simp
qed

text \<open>The installs that fail are those in which the fetch of some URL of the manifest
  fails.\<close>

lemma not_all_ok_iff:
  "(\<not> list_all (precache_fetch_ok net) us) = list_ex (\<lambda>u. \<not> precache_fetch_ok net u) us"
  by (simp add: list_all_iff list_ex_iff)

text \<open>
  Claim C5, as amended. During install, readiness to skip waiting is signaled in every
  run and first of all: the flag is set and \<open>SkipWaitingCalled\<close> comes before the event
  that ends population, whether population then succeeds or fails.
\<close>

theorem skip_waiting_unconditional:
  "skip_waiting (snd (install_handler net s)) \<and>
   events (snd (install_handler net s)) =
     events s @ [SkipWaitingCalled,
                 if fst (install_handler net s) = Inr () then PopulationSucceeded
                 else PopulationFailed] \<and>
   (fst (install_handler net s) = Inr () \<longleftrightarrow> list_all (precache_fetch_ok net) PRECACHE)"
proof (cases "list_all (precache_fetch_ok net) PRECACHE")
  case True
  then show ?thesis by (simp add: install_ok)
next
  case False
  then show ?thesis by (simp add: install_failed)
qed

text \<open>The rule of C5 on an install in which one fetch rejects and on one in which all
  succeed.\<close>

theorem skip_waiting_unconditional_witness:
  "fst (install_handler flaky_net initial_state) \<noteq> Inr () \<and>
   skip_waiting (snd (install_handler flaky_net initial_state)) \<and>
   events (snd (install_handler flaky_net initial_state)) = [SkipWaitingCalled, PopulationFailed] \<and>
   fst (install_handler (status_net 200) initial_state) = Inr () \<and>
   events (snd (install_handler (status_net 200) initial_state)) =
     [SkipWaitingCalled, PopulationSucceeded]"
proof -
  have a: "\<not> list_all (precache_fetch_ok flaky_net) PRECACHE"
    by (simp add: PRECACHE_def precache_fetch_ok_def flaky_net_def)
  have b: "list_all (precache_fetch_ok (status_net 200)) PRECACHE"
    by (simp add: PRECACHE_def precache_fetch_ok_def status_net_def ok_status_def)
  have e: "events initial_state = []"
    by (simp add: initial_state_def)
  from skip_waiting_unconditional [of flaky_net initial_state]
    skip_waiting_unconditional [of "status_net 200" initial_state] a b
  show ?thesis
    by (simp add: e)
qed

text \<open>With every fetch rejecting, the install fails and skip waiting has been signaled
  all the same; no trace of an install, failed or successful, has the signal after a
  successful population.\<close>

theorem skip_before_population_counterexample:
  "fst (install_handler offline_net initial_state) = Inl TypeError \<and>
   skip_waiting (snd (install_handler offline_net initial_state)) \<and>
   SkipWaitingCalled \<in> set (events (snd (install_handler offline_net initial_state))) \<and>
   \<not> skip_only_after_success False (events (snd (install_handler offline_net initial_state))) \<and>
   \<not> skip_only_after_success False (events (snd (install_handler (status_net 200) initial_state)))"
proof -
  have a: "\<not> list_all (precache_fetch_ok offline_net) PRECACHE"
    by (simp add: PRECACHE_def precache_fetch_ok_def offline_net_def)
  have b: "list_all (precache_fetch_ok (status_net 200)) PRECACHE"
    by (simp add: PRECACHE_def precache_fetch_ok_def status_net_def ok_status_def)
  show ?thesis
    by (simp add: install_failed [OF a] install_ok [OF b] initial_state_def)
qed

text \<open>
  Claim C6. When the fetch of any one URL of the manifest fails, the install fails as a
  whole: the promise given to \<^verbatim>\<open>event.waitUntil\<close> rejects, which is what the runtime
  sees, and every cache holds exactly what it held before, so that no part of the
  manifest has been stored.
\<close>

theorem install_all_or_nothing:
  assumes "list_ex (\<lambda>u. \<not> precache_fetch_ok net u) PRECACHE"
  shows "fst (install_handler net s) = Inl TypeError \<and>
         (\<forall>n. cache_of n (storage (snd (install_handler net s))) = cache_of n (storage s)) \<and>
         (\<forall>u. caches_match (storage (snd (install_handler net s))) u =
               caches_match (storage s) u)"
proof -
  from assms have "\<not> list_all (precache_fetch_ok net) PRECACHE"
    by (simp add: not_all_ok_iff)
  then show ?thesis
    by (simp add: install_failed cache_of_caches_open caches_match_caches_open)
qed

text \<open>The rule of C6 on an install in which the stylesheet alone cannot be fetched: the
  root page, whose fetch succeeds, is not in the cache afterwards.\<close>

theorem install_all_or_nothing_witness:
  "list_ex (\<lambda>u. \<not> precache_fetch_ok flaky_net u) PRECACHE \<and>
   precache_fetch_ok flaky_net ''/'' \<and>
   fst (install_handler flaky_net initial_state) = Inl TypeError \<and>
   cache_of CACHE_NAME (storage (snd (install_handler flaky_net initial_state))) ''/'' = None \<and>
   caches_match (storage (snd (install_handler flaky_net initial_state))) ''/'' = None"
proof -
  have a: "list_ex (\<lambda>u. \<not> precache_fetch_ok flaky_net u) PRECACHE"
    by (simp add: PRECACHE_def precache_fetch_ok_def flaky_net_def)
  have b: "precache_fetch_ok flaky_net ''/''"
    by (simp add: precache_fetch_ok_def flaky_net_def ok_status_def)
  have c: "cache_of CACHE_NAME (storage initial_state) ''/'' = None"
    "caches_match (storage initial_state) ''/'' = None"
    by (simp_all add: initial_state_def cache_of_def)
  from install_all_or_nothing [OF a, of initial_state] a b c show ?thesis
    by simp
qed

text \<open>
  Claim C9. The offline URL is in the manifest, so after a successful install the cache
  storage has an entry for it, and a navigation whose fetch rejects is answered with a
  cached page.
\<close>

theorem offline_page_cached_after_install:
  assumes "fst (install_handler net s) = Inr ()"
  shows "OFFLINE_URL \<in> set PRECACHE \<and>
         caches_match (storage (snd (install_handler net s))) OFFLINE_URL \<noteq> None \<and>
         (\<forall>net' req. mode req = Navigate \<and> net' (url req) = None \<longrightarrow>
            (\<exists>page. fetch_handler net' (storage (snd (install_handler net s))) req =
               (Inr (Some page), storage (snd (install_handler net s)))))"
proof -
  let ?st = "storage (snd (install_handler net s))"
  have ok: "list_all (precache_fetch_ok net) PRECACHE"
  proof (rule ccontr)
    assume "\<not> list_all (precache_fetch_ok net) PRECACHE"
    then have "fst (install_handler net s) = Inl TypeError"
      by (simp add: install_failed)
    with assms show False by simp
  qed
  let ?c = "put_all (map (\<lambda>u. (u, the (net u))) PRECACHE) (cache_of CACHE_NAME (storage s))"
  have st: "?st = caches_update CACHE_NAME ?c (caches_open CACHE_NAME (storage s))"
    by (simp add: install_ok [OF ok])
  have "(CACHE_NAME, ?c) \<in> set ?st"
    unfolding st by (rule updated_mem) (rule map_of_caches_open)
  moreover have "?c OFFLINE_URL \<noteq> None"
    using put_all_fetched [OF distinct_PRECACHE OFFLINE_in_PRECACHE] by simp
  ultimately have m: "caches_match ?st OFFLINE_URL \<noteq> None"
    by (rule caches_match_found)
  then obtain page where p: "caches_match ?st OFFLINE_URL = Some page"
    by blast
  have "fetch_handler net' ?st req = (Inr (Some page), ?st)"
    if "mode req = Navigate \<and> net' (url req) = None" for net' req
    using that p by (simp add: fetch_handler_def fetch_def)
  with m OFFLINE_in_PRECACHE show ?thesis
    by blast
qed

text \<open>The rule of C9 on an install from the initial state followed by a navigation
  while offline.\<close>

theorem offline_page_cached_after_install_witness:
  "fst (install_handler (status_net 200) initial_state) = Inr () \<and>
   caches_match (storage (snd (install_handler (status_net 200) initial_state))) OFFLINE_URL \<noteq> None \<and>
   (\<exists>page. fetch_handler offline_net (storage (snd (install_handler (status_net 200) initial_state)))
       \<lparr>url = ''/profile'', mode = Navigate\<rparr> =
     (Inr (Some page), storage (snd (install_handler (status_net 200) initial_state))))"
proof -
  have b: "list_all (precache_fetch_ok (status_net 200)) PRECACHE"
    by (simp add: PRECACHE_def precache_fetch_ok_def status_net_def ok_status_def)
  have r: "fst (install_handler (status_net 200) initial_state) = Inr ()"
    by (simp add: install_ok [OF b])
  have q: "mode \<lparr>url = ''/profile'', mode = Navigate\<rparr> = Navigate \<and>
           offline_net (url \<lparr>url = ''/profile'', mode = Navigate\<rparr>) = None"
    by (simp add: offline_net_def)
  from offline_page_cached_after_install [OF r] r q show ?thesis
    by blast
qed

section \<open>Properties of the gesture navigator\<close>

subsection \<open>Index lookup and remainder\<close>

lemma findIndex_range:
  "findIndex p xs = - 1 \<or> (0 \<le> findIndex p xs \<and> findIndex p xs < int (length xs))"
  by (induction xs) (auto simp: Let_def)

lemma findIndex_sat:
  "0 \<le> findIndex p xs \<Longrightarrow> p (xs ! nat (findIndex p xs))"
proof (induction xs)
  case Nil
  then show ?case by simp
next
  case (Cons x xs)
  show ?case
  proof (cases "p x")
    case True
    then show ?thesis by simp
  next
    case False
    with Cons.prems have nn: "0 \<le> findIndex p xs"
      by (simp add: Let_def split: if_splits)
    with False Cons.IH show ?thesis
      by (simp add: Let_def nat_add_distrib)
  qed
qed

lemma findIndex_none: "findIndex p xs = - 1 \<longleftrightarrow> \<not> list_ex p xs"
proof (induction xs)
  case Nil
  then show ?case by simp
next
  case (Cons x xs)
  then show ?case
    using findIndex_range [of p xs] by (auto simp: Let_def)
qed

lemma findIndex_first:
  "0 \<le> findIndex p xs \<Longrightarrow> j < nat (findIndex p xs) \<Longrightarrow> \<not> p (xs ! j)"
proof (induction xs arbitrary: j)
  case Nil
  then show ?case by simp
next
  case (Cons x xs)
  show ?case
  proof (cases "p x")
    case True
    with Cons.prems show ?thesis by simp
  next
    case False
    with Cons.prems have nn: "0 \<le> findIndex p xs"
      by (simp add: Let_def split: if_splits)
    show ?thesis
    proof (cases j)
      case 0
      with False show ?thesis by simp
    next
      case (Suc j')
      with Cons.prems False nn have "j' < nat (findIndex p xs)"
        by (simp add: Let_def nat_add_distrib)
      with Cons.IH [OF nn] Suc show ?thesis by simp
    qed
  qed
qed

lemma js_rem_nonneg: "0 \<le> a \<Longrightarrow> 0 < b \<Longrightarrow> js_rem a b = Some (a mod b)"
  by (cases "a = 0") (simp_all add: js_rem_def)

lemma tabIndexOf_range:
  "tabIndexOf parse tabs href = - 1 \<or>
   (0 \<le> tabIndexOf parse tabs href \<and> tabIndexOf parse tabs href < int (length tabs))"
  using findIndex_range [of _ tabs]
  by (auto simp: tabIndexOf_def split: option.splits)

lemma tabIndexOf_match:
  assumes "0 \<le> tabIndexOf parse tabs href"
  shows "normalizePath parse (tabs ! nat (tabIndexOf parse tabs href)) = normalizePath parse href \<and>
         normalizePath parse href \<noteq> None"
proof (cases "normalizePath parse href")
  case None
  with assms show ?thesis by (simp add: tabIndexOf_def)
next
  case (Some path)
  with assms have ne: "path \<noteq> []"
    by (auto simp: tabIndexOf_def split: if_splits)
  with Some have eq: "tabIndexOf parse tabs href =
      findIndex (\<lambda>t. normalizePath parse t = Some path) tabs"
    by (simp add: tabIndexOf_def)
  from assms findIndex_sat [of "\<lambda>t. normalizePath parse t = Some path" tabs]
  show ?thesis unfolding eq Some by simp
qed

lemma nextTab_index:
  assumes "0 \<le> tabIndexOf parse tabs href"
  shows "nextTab parse tabs href =
     goto (Some (tabs ! nat ((tabIndexOf parse tabs href + 1) mod int (length tabs))))"
proof -
  from assms tabIndexOf_range [of parse tabs href]
  have lt: "tabIndexOf parse tabs href < int (length tabs)" by auto
  with assms have pos: "0 < int (length tabs)" by linarith
  from assms have "js_rem (tabIndexOf parse tabs href + 1) (int (length tabs)) =
      Some ((tabIndexOf parse tabs href + 1) mod int (length tabs))"
    using pos by (intro js_rem_nonneg) auto
  moreover have "0 \<le> (tabIndexOf parse tabs href + 1) mod int (length tabs)"
    "(tabIndexOf parse tabs href + 1) mod int (length tabs) < int (length tabs)"
    using pos by simp_all
  ultimately show ?thesis
    using assms by (simp add: nextTab_def tab_at_def)
qed

lemma prevTab_index:
  assumes "0 \<le> tabIndexOf parse tabs href"
  shows "prevTab parse tabs href =
     goto (Some (tabs ! nat ((tabIndexOf parse tabs href - 1 + int (length tabs))
                               mod int (length tabs))))"
proof -
  from assms tabIndexOf_range [of parse tabs href]
  have lt: "tabIndexOf parse tabs href < int (length tabs)" by auto
  with assms have pos: "0 < int (length tabs)" by linarith
  from assms pos have "0 \<le> tabIndexOf parse tabs href - 1 + int (length tabs)"
    by linarith
  with pos have "js_rem (tabIndexOf parse tabs href - 1 + int (length tabs)) (int (length tabs)) =
      Some ((tabIndexOf parse tabs href - 1 + int (length tabs)) mod int (length tabs))"
    by (intro js_rem_nonneg)
  moreover have "0 \<le> (tabIndexOf parse tabs href - 1 + int (length tabs)) mod int (length tabs)"
    "(tabIndexOf parse tabs href - 1 + int (length tabs)) mod int (length tabs) < int (length tabs)"
    using pos by simp_all
  ultimately show ?thesis
    using assms by (simp add: prevTab_def tab_at_def)
qed


subsection \<open>The example page\<close>

lemma example_tabs_eq:
  "example_tabs = [''https://undo.example/'', ''https://undo.example/reflections'',
     ''https://undo.example/profile'']"
  by (simp add: example_tabs_def init_tabs_def)

lemma example_index_root:
  "tabIndexOf example_parse example_tabs ''https://undo.example/'' = 0"
  by (simp add: example_tabs_eq tabIndexOf_def normalizePath_def example_parse_def)


lemma example_index_profile:
  "tabIndexOf example_parse example_tabs ''https://undo.example/profile'' = 2"
  by (simp add: example_tabs_eq tabIndexOf_def normalizePath_def example_parse_def)

subsection \<open>Tab navigation\<close>

text \<open>
  Claim C7. With the current path at index \<open>i\<close> of a tab list of length \<open>n\<close>, "next"
  goes to the tab at index \<open>(i + 1) mod n\<close> and "previous" to the tab at index
  \<open>(i - 1 + n) mod n\<close>: at the last tab "next" is the first tab, at the first tab
  "previous" is the last tab.
\<close>

theorem tab_navigation_wraps:
  assumes "tabIndexOf parse tabs href = i" and "0 \<le> i" and "n = int (length tabs)"
  shows "i < n \<and>
         nextTab parse tabs href = goto (Some (tabs ! nat ((i + 1) mod n))) \<and>
         prevTab parse tabs href = goto (Some (tabs ! nat ((i - 1 + n) mod n))) \<and>
         (i = n - 1 \<longrightarrow> nextTab parse tabs href = goto (Some (tabs ! 0))) \<and>
         (i = 0 \<longrightarrow> prevTab parse tabs href = goto (Some (tabs ! (length tabs - 1))))"
proof -
  from assms have nn: "0 \<le> tabIndexOf parse tabs href" by simp
  from nn tabIndexOf_range [of parse tabs href] assms have lt: "i < n" by auto
  have nx: "nextTab parse tabs href = goto (Some (tabs ! nat ((i + 1) mod n)))"
    using nextTab_index [OF nn] assms by simp
  have pv: "prevTab parse tabs href = goto (Some (tabs ! nat ((i - 1 + n) mod n)))"
    using prevTab_index [OF nn] assms by simp
  have last: "nextTab parse tabs href = goto (Some (tabs ! 0))" if "i = n - 1"
    using that nx by simp
  have first: "prevTab parse tabs href = goto (Some (tabs ! (length tabs - 1)))" if "i = 0"
  proof -
    from lt that have "0 < n" by simp
    then have "(i - 1 + n) mod n = n - 1"
      using that by (simp add: zmod_minus1)
    moreover have "nat (n - 1) = length tabs - 1"
      using assms(3) by simp
    ultimately show ?thesis using pv by simp
  qed
  from lt nx pv last first show ?thesis by blast
qed

text \<open>The rule of C7 on the example page: from the last tab forward to the first, from
  the first tab backward to the last.\<close>

theorem tab_navigation_wraps_witness:
  "tabIndexOf example_parse example_tabs ''https://undo.example/profile'' = 2 \<and>
   nextTab example_parse example_tabs ''https://undo.example/profile'' =
     Some ''https://undo.example/'' \<and>
   tabIndexOf example_parse example_tabs ''https://undo.example/'' = 0 \<and>
   prevTab example_parse example_tabs ''https://undo.example/'' =
     Some ''https://undo.example/profile'' \<and>
   nextTab example_parse example_tabs ''https://undo.example/'' =
     Some ''https://undo.example/reflections''"
proof -
  have n: "(3::int) = int (length example_tabs)"
    by (simp add: example_tabs_eq)
  from tab_navigation_wraps [OF example_index_profile _ n]
    tab_navigation_wraps [OF example_index_root _ n]
    example_index_profile example_index_root
  show ?thesis
    by (simp add: example_tabs_eq goto_def)
qed

text \<open>
  Claim C8. When the lookup of the current path gives -1, neither direction navigates;
  an unparsable current URL gives -1. The lookup always returns -1 or an index of the
  list whose URL parses and has the current path, so an unparsable URL of the list is
  never the match; and whatever else the list holds, the lookup gives -1 only when no
  URL of the list has the current path.
\<close>

theorem unknown_path_no_navigation:
  "(tabIndexOf parse tabs href = - 1 \<longrightarrow>
      nextTab parse tabs href = None \<and> prevTab parse tabs href = None) \<and>
   (normalizePath parse href = None \<longrightarrow> tabIndexOf parse tabs href = - 1) \<and>
   (tabIndexOf parse tabs href = - 1 \<or>
      0 \<le> tabIndexOf parse tabs href \<and> tabIndexOf parse tabs href < int (length tabs) \<and>
      normalizePath parse (tabs ! nat (tabIndexOf parse tabs href)) = normalizePath parse href \<and>
      normalizePath parse (tabs ! nat (tabIndexOf parse tabs href)) \<noteq> None) \<and>
   (\<forall>path. normalizePath parse href = Some path \<and> path \<noteq> [] \<longrightarrow>
      (tabIndexOf parse tabs href = - 1 \<longleftrightarrow>
         \<not> list_ex (\<lambda>t. normalizePath parse t = Some path) tabs))"
proof -
  have a: "nextTab parse tabs href = None \<and> prevTab parse tabs href = None"
    if "tabIndexOf parse tabs href = - 1"
    using that by (simp add: nextTab_def prevTab_def)
  have b: "tabIndexOf parse tabs href = - 1" if "normalizePath parse href = None"
    using that by (simp add: tabIndexOf_def)
  have c: "tabIndexOf parse tabs href = - 1 \<or>
      0 \<le> tabIndexOf parse tabs href \<and> tabIndexOf parse tabs href < int (length tabs) \<and>
      normalizePath parse (tabs ! nat (tabIndexOf parse tabs href)) = normalizePath parse href \<and>
      normalizePath parse (tabs ! nat (tabIndexOf parse tabs href)) \<noteq> None"
    using tabIndexOf_range [of parse tabs href] tabIndexOf_match [of parse tabs href]
    by auto
  have d: "tabIndexOf parse tabs href = - 1 \<longleftrightarrow>
         \<not> list_ex (\<lambda>t. normalizePath parse t = Some path) tabs"
    if "normalizePath parse href = Some path \<and> path \<noteq> []" for path
    using that by (simp add: tabIndexOf_def findIndex_none)
  from a b c d show ?thesis by blast
qed

text \<open>The rule of C8 on an unparsable current URL, and on a tab list whose first URL is
  unparsable: the lookup passes over it.\<close>

theorem unknown_path_no_navigation_witness:
  "normalizePath example_parse ''http://['' = None \<and>
   tabIndexOf example_parse example_tabs ''http://['' = - 1 \<and>
   nextTab example_parse example_tabs ''http://['' = None \<and>
   prevTab example_parse example_tabs ''http://['' = None \<and>
   tabIndexOf example_parse tabs_with_bad_url ''https://undo.example/profile'' = 1 \<and>
   tabIndexOf example_parse tabs_with_bad_url ''https://undo.example/reflections'' = - 1 \<and>
   nextTab example_parse tabs_with_bad_url ''https://undo.example/reflections'' = None"
proof -
  have p: "normalizePath example_parse ''http://['' = None"
    by (simp add: normalizePath_def example_parse_def)
  have i: "tabIndexOf example_parse tabs_with_bad_url ''https://undo.example/profile'' = 1"
    by (simp add: tabs_with_bad_url_def init_tabs_def tabIndexOf_def normalizePath_def example_parse_def)
  have j: "tabIndexOf example_parse tabs_with_bad_url ''https://undo.example/reflections'' = - 1"
    by (simp add: tabs_with_bad_url_def init_tabs_def tabIndexOf_def normalizePath_def example_parse_def)
  from unknown_path_no_navigation [of example_parse example_tabs "''http://[''"]
    unknown_path_no_navigation [of example_parse tabs_with_bad_url
      "''https://undo.example/reflections''"] p i j
  show ?thesis by simp
qed

subsection \<open>Rounding to a double\<close>












subsection \<open>Touch sequences\<close>








lemma isFormEl_interactive: "isFormEl el \<Longrightarrow> inside_interactive el"
proof (cases el)
  case None
  then show "isFormEl el \<Longrightarrow> inside_interactive el" by (simp add: isFormEl_def)
next
  case (Some chain)
  have "matches_selector k \<Longrightarrow> interactive k" for k
    by (cases k) auto
  then have "list_ex matches_selector chain \<Longrightarrow> list_ex interactive chain"
    by (auto simp: list_ex_iff)
  with Some show "isFormEl el \<Longrightarrow> inside_interactive el"
    by (simp add: isFormEl_def inside_interactive_def)
qed












end
